theory Spec2Isabelle
  imports Main "HOL-Library.Word" "HOL-Library.Sublist"
begin

section \<open>JavaScript values and strings\<close>

text \<open>
  A JavaScript string is a sequence of 16-bit code units; \<open>includes\<close> and
  \<open>replaceAll\<close> work on code units. The values that reach the CSV module are plain
  data: \<open>undefined\<close>, \<open>null\<close>, booleans, numbers, strings, arrays and plain
  objects (no symbols, dates or objects with a \<open>toJSON\<close> method), and what a plain
  object inherits: the built-in functions of \<open>Object.prototype\<close> and that object
  itself.

  The module looks at a number in three ways: its type, its text, and whether it is an
  index of an array. \<open>Integer n\<close> is the safe integer \<open>n\<close> (of magnitude below \<open>2^53\<close>),
  which JavaScript prints in decimal. \<open>Other t\<close> is any other number, a fraction, a
  number of magnitude \<open>2^53\<close> or more, \<open>NaN\<close> or an infinity, carried by the text \<open>t\<close>
  that \<open>String\<close> gives it (\<open>0.5\<close>, \<open>1e+21\<close>, \<open>NaN\<close>); it is never the index of an
  array element.

  A plain object is the list of its own enumerable properties in enumeration order,
  each key once, and its prototype is \<open>Object.prototype\<close>. A hole of an array reads
  as \<open>undefined\<close>, which is how every operation below sees it. \<open>Fun f\<close> is the
  built-in function named \<open>f\<close>.
\<close>

type_synonym jsstring = "16 word list"

datatype jsnum = Integer int | Other jsstring

datatype jsval =
    Undefined
  | Null
  | Bool bool
  | Num jsnum
  | Str jsstring
  | Arr (elements: "jsval list")
  | Obj (properties: "(jsstring \<times> jsval) list")
  | Fun jsstring
  | ObjectPrototype

definition ascii :: "string \<Rightarrow> jsstring" where
  "ascii s = map of_char s"

text \<open>The \<open>typeof\<close> operator: \<open>null\<close>, arrays and \<open>Object.prototype\<close> are of
  type "object".\<close>

fun typeof :: "jsval \<Rightarrow> string" where
  "typeof Undefined = ''undefined''"
| "typeof Null = ''object''"
| "typeof (Bool b) = ''boolean''"
| "typeof (Num n) = ''number''"
| "typeof (Str s) = ''string''"
| "typeof (Arr xs) = ''object''"
| "typeof (Obj kvs) = ''object''"
| "typeof (Fun f) = ''function''"
| "typeof ObjectPrototype = ''object''"

fun isArray :: "jsval \<Rightarrow> bool" where
  "isArray (Arr xs) = True"
| "isArray v = False"

subsection \<open>String.prototype.includes, replaceAll and Array.prototype.join\<close>

text \<open>\<open>s.includes(t)\<close>: \<open>t\<close> occurs in \<open>s\<close> as a contiguous run of code units
  (the empty string occurs in every string).\<close>

fun includes_str :: "'a list \<Rightarrow> 'a list \<Rightarrow> bool" where
  "includes_str [] t = (t = [])"
| "includes_str (c # cs) t = (prefix t (c # cs) \<or> includes_str cs t)"

text \<open>\<open>s.replaceAll(p, r)\<close> for a string pattern \<open>p\<close> and a replacement \<open>r\<close> without
  \<open>$\<close> patterns: the occurrences of \<open>p\<close> are found from left to right, without
  overlaps; the empty pattern matches between any two code units and at both ends.\<close>

function replaceAll :: "'a list \<Rightarrow> 'a list \<Rightarrow> 'a list \<Rightarrow> 'a list" where
  "replaceAll [] p r = (if p = [] then r else [])"
| "replaceAll (c # cs) p r =
     (if p = [] then r @ c # replaceAll cs p r
      else if prefix p (c # cs) then r @ replaceAll (drop (length p) (c # cs)) p r
      else c # replaceAll cs p r)"
  by pat_completeness auto
termination
  by (relation "measure (\<lambda>(s, p, r). length s)") (auto simp: neq_Nil_conv)

text \<open>\<open>xs.join(sep)\<close> on an array of strings.\<close>

fun join :: "jsstring list \<Rightarrow> jsstring \<Rightarrow> jsstring" where
  "join [] sep = []"
| "join [x] sep = x"
| "join (x # y # ys) sep = x @ sep @ join (y # ys) sep"

subsection \<open>String(value) and JSON.stringify(value)\<close>

definition digit :: "nat \<Rightarrow> 16 word" where
  "digit d = of_nat (48 + d)"

function decimal :: "nat \<Rightarrow> jsstring" where
  "decimal n = (if n < 10 then [digit n] else decimal (n div 10) @ [digit (n mod 10)])"
  by pat_completeness auto
termination
  by (relation "measure id") auto

declare decimal.simps [simp del]

fun numberToString :: "jsnum \<Rightarrow> jsstring" where
  "numberToString (Integer n) =
     (if n < 0 then ascii ''-'' @ decimal (nat (- n)) else decimal (nat n))"
| "numberToString (Other t) = t"

text \<open>\<open>String(v)\<close>. An array is joined with commas, \<open>undefined\<close> and \<open>null\<close>
  elements giving the empty string; a plain object gives \<open>[object Object]\<close>, a
  built-in function its source text \<open>function f() { [native code] }\<close>.\<close>

fun String_of :: "jsval \<Rightarrow> jsstring" where
  "String_of Undefined = ascii ''undefined''"
| "String_of Null = ascii ''null''"
| "String_of (Bool b) = (if b then ascii ''true'' else ascii ''false'')"
| "String_of (Num n) = numberToString n"
| "String_of (Str s) = s"
| "String_of (Arr xs) =
     join (map (\<lambda>x. if x = Undefined \<or> x = Null then [] else String_of x) xs) (ascii '','')"
| "String_of (Obj kvs) = ascii ''[object Object]''"
| "String_of (Fun f) = ascii ''function '' @ f @ ascii ''() { [native code] }''"
| "String_of ObjectPrototype = ascii ''[object Object]''"

definition hexdigit :: "nat \<Rightarrow> 16 word" where
  "hexdigit d = (if d < 10 then of_nat (48 + d) else of_nat (87 + d))"

definition UnicodeEscape :: "16 word \<Rightarrow> jsstring" where
  "UnicodeEscape c =
     [0x5C] @ ascii ''u'' @
     [hexdigit (unat c div 4096), hexdigit (unat c div 256 mod 16),
      hexdigit (unat c div 16 mod 16), hexdigit (unat c mod 16)]"

definition isLeadingSurrogate :: "16 word \<Rightarrow> bool" where
  "isLeadingSurrogate c = (0xD800 \<le> c \<and> c \<le> 0xDBFF)"

definition isTrailingSurrogate :: "16 word \<Rightarrow> bool" where
  "isTrailingSurrogate c = (0xDC00 \<le> c \<and> c \<le> 0xDFFF)"

definition escapeUnit :: "16 word \<Rightarrow> jsstring" where
  "escapeUnit c =
     (if c = 0x08 then [0x5C] @ ascii ''b''
      else if c = 0x09 then [0x5C] @ ascii ''t''
      else if c = 0x0A then [0x5C] @ ascii ''n''
      else if c = 0x0C then [0x5C] @ ascii ''f''
      else if c = 0x0D then [0x5C] @ ascii ''r''
      else if c = 0x22 then [0x5C, 0x22]
      else if c = 0x5C then [0x5C, 0x5C]
      else if c < 0x20 \<or> isLeadingSurrogate c \<or> isTrailingSurrogate c then UnicodeEscape c
      else [c])"

text \<open>The characters of a JSON string literal: a surrogate pair is kept, a lone
  surrogate and a control character are escaped.\<close>

fun quoteChars :: "jsstring \<Rightarrow> jsstring" where
  "quoteChars [] = []"
| "quoteChars [c] = escapeUnit c"
| "quoteChars (c # d # cs) =
     (if isLeadingSurrogate c \<and> isTrailingSurrogate d then c # d # quoteChars cs
      else escapeUnit c @ quoteChars (d # cs))"

definition QuoteJSONString :: "jsstring \<Rightarrow> jsstring" where
  "QuoteJSONString s = [0x22] @ quoteChars s @ [0x22]"

text \<open>\<open>JSON.stringify(v)\<close> without indentation; \<open>None\<close> is the result
  \<open>undefined\<close>, which \<open>undefined\<close> and a function give. Such an element of an array
  is written \<open>null\<close>, such a property is left out. \<open>NaN\<close> and the infinities are
  written \<open>null\<close>. The properties of \<open>Object.prototype\<close> are not enumerable.\<close>

definition JSON_number :: "jsnum \<Rightarrow> jsstring" where
  "JSON_number n =
     (if n = Other (ascii ''NaN'') \<or> n = Other (ascii ''Infinity'') \<or> n = Other (ascii ''-Infinity'')
      then ascii ''null'' else numberToString n)"

fun JSON_serialize :: "jsval \<Rightarrow> jsstring option" where
  "JSON_serialize Undefined = None"
| "JSON_serialize Null = Some (ascii ''null'')"
| "JSON_serialize (Bool b) = Some (if b then ascii ''true'' else ascii ''false'')"
| "JSON_serialize (Num n) = Some (JSON_number n)"
| "JSON_serialize (Str s) = Some (QuoteJSONString s)"
| "JSON_serialize (Arr xs) =
     Some (ascii ''['' @
           join (map (\<lambda>x. case JSON_serialize x of None \<Rightarrow> ascii ''null'' | Some t \<Rightarrow> t) xs)
             (ascii '','') @
           ascii '']'')"
| "JSON_serialize (Obj kvs) =
     Some (ascii ''{'' @
           join (concat (map (\<lambda>(k, x). case JSON_serialize x of None \<Rightarrow> []
                                       | Some t \<Rightarrow> [QuoteJSONString k @ ascii '':'' @ t]) kvs))
             (ascii '','') @
           ascii ''}'')"
| "JSON_serialize (Fun f) = None"
| "JSON_serialize ObjectPrototype = Some (ascii ''{}'')"


section \<open>csv/stringify.ts\<close>

subsection \<open>Types\<close>

text \<open>\<open>PropertyAccessor = number | string\<close>.\<close>

datatype PropertyAccessor = PNum jsnum | PStr jsstring

text \<open>\<open>ColumnDetails = { header?: string; prop: PropertyAccessor | PropertyAccessor[] }\<close>
  and \<open>Column = ColumnDetails | PropertyAccessor | PropertyAccessor[]\<close>.\<close>

datatype Prop = Single PropertyAccessor | Path "PropertyAccessor list"

record ColumnDetails =
  header :: "jsstring option"
  props :: Prop

datatype Column =
    Details ColumnDetails
  | Accessor PropertyAccessor
  | Accessors "PropertyAccessor list"

record NormalizedColumn =
  header :: jsstring
  props :: "PropertyAccessor list"

text \<open>The field \<open>prop\<close> of the source is written \<open>props\<close> (\<open>prop\<close> is reserved).\<close>

record StringifyOptions =
  headers :: "bool option"
  separator :: "jsstring option"
  columns :: "Column list option"
  bom :: "bool option"

text \<open>The three \<open>TypeError\<close>s of the module: the separator check of \<open>stringify\<close>
  ("Separator cannot include the following strings: ..."), the accessor check of
  \<open>getValuesFromItem\<close> ("Property accessor is not of type "number"") and its
  check of an object without columns ("No property accessor function was provided for
  object").\<close>

datatype TypeError = SeparatorInvalid | AccessorNotNumber | NoAccessorForObject

definition QUOTE :: jsstring where "QUOTE = [0x22]"
definition LF :: jsstring where "LF = [0x0A]"
definition CRLF :: jsstring where "CRLF = [0x0D, 0x0A]"
definition BYTE_ORDER_MARK :: jsstring where "BYTE_ORDER_MARK = [0xFEFF]"

subsection \<open>Property reads\<close>

text \<open>\<open>xs[i]\<close> on an array with an integer: the element, or \<open>undefined\<close> out of
  range. With any number: a number that is not an integer names no element (and
  nothing that an array inherits), so the read gives \<open>undefined\<close>.\<close>

definition arrayAt :: "jsval list \<Rightarrow> int \<Rightarrow> jsval" where
  "arrayAt xs i = (if 0 \<le> i \<and> i < int (length xs) then xs ! nat i else Undefined)"

fun arrayGet :: "jsval list \<Rightarrow> jsnum \<Rightarrow> jsval" where
  "arrayGet xs (Integer i) = arrayAt xs i"
| "arrayGet xs (Other t) = Undefined"

fun accessorValue :: "PropertyAccessor \<Rightarrow> jsval" where
  "accessorValue (PNum n) = Num n"
| "accessorValue (PStr s) = Str s"

text \<open>The property key of an accessor: its string form.\<close>

definition propertyKey :: "PropertyAccessor \<Rightarrow> jsstring" where
  "propertyKey p = String_of (accessorValue p)"

text \<open>The properties of \<open>Object.prototype\<close>: \<open>constructor\<close> is the function
  \<open>Object\<close>; ten more are functions of their own name; \<open>__proto__\<close> reads the
  prototype, which \<open>Object.prototype\<close> has not.\<close>

definition inheritedFunctions :: "jsstring list" where
  "inheritedFunctions =
     map ascii [''hasOwnProperty'', ''isPrototypeOf'', ''propertyIsEnumerable'',
                ''toLocaleString'', ''toString'', ''valueOf'', ''__defineGetter__'',
                ''__defineSetter__'', ''__lookupGetter__'', ''__lookupSetter__'']"

definition inheritedKeys :: "jsstring list" where
  "inheritedKeys = ascii ''constructor'' # ascii ''__proto__'' # inheritedFunctions"

definition prototypeGet :: "jsstring \<Rightarrow> jsval" where
  "prototypeGet k =
     (if k = ascii ''constructor'' then Fun (ascii ''Object'')
      else if k \<in> set inheritedFunctions then Fun k
      else if k = ascii ''__proto__'' then Null
      else Undefined)"

text \<open>\<open>o[p]\<close> on a plain object: the own property whose key is the string form of
  \<open>p\<close>; without one, what \<open>Object.prototype\<close> supplies for that key (\<open>__proto__\<close>
  reads \<open>Object.prototype\<close> itself), or \<open>undefined\<close>.\<close>

definition objectGet :: "(jsstring \<times> jsval) list \<Rightarrow> PropertyAccessor \<Rightarrow> jsval" where
  "objectGet kvs p =
     (case map_of kvs (propertyKey p) of
        Some v \<Rightarrow> v
      | None \<Rightarrow> if propertyKey p = ascii ''__proto__'' then ObjectPrototype
                else prototypeGet (propertyKey p))"

text \<open>\<open>value[prop]\<close> of line 199, where \<open>value\<close> is an object that is neither
  \<open>null\<close> nor an array: a plain object or \<open>Object.prototype\<close>.\<close>

fun getProperty :: "jsval \<Rightarrow> PropertyAccessor \<Rightarrow> jsval" where
  "getProperty ObjectPrototype p = prototypeGet (propertyKey p)"
| "getProperty v p = objectGet (properties v) p"

subsection \<open>getEscapedString\<close>

text \<open>Lines 132 to 135: the text of a value that is neither \<open>undefined\<close> nor
  \<open>null\<close>. For such a value of type "object", an array or a plain object,
  \<open>JSON.stringify\<close> returns a string; the branch for \<open>None\<close> is never taken.\<close>

definition valueText :: "jsval \<Rightarrow> jsstring" where
  "valueText v =
     (if typeof v = ''object'' then (case JSON_serialize v of None \<Rightarrow> ascii ''undefined'' | Some t \<Rightarrow> t)
      else String_of v)"

definition getEscapedString :: "jsval \<Rightarrow> jsstring \<Rightarrow> jsstring" where
  "getEscapedString v sep =
     (if v = Undefined \<or> v = Null then []
      else let str = valueText v
           in if includes_str str sep \<or> includes_str str LF \<or> includes_str str QUOTE
              then QUOTE @ replaceAll str QUOTE (QUOTE @ QUOTE) @ QUOTE
              else str)"

subsection \<open>normalizeColumn\<close>

fun normalizeColumn :: "Column \<Rightarrow> NormalizedColumn" where
  "normalizeColumn (Accessors column) =
     \<lparr>header = String_of (arrayAt (map accessorValue column) (int (length column) - 1)),
      props = column\<rparr>"
| "normalizeColumn (Details column) =
     (let prop' = (case ColumnDetails.props column of Path ps \<Rightarrow> ps | Single p \<Rightarrow> [p])
      in \<lparr>header = (case ColumnDetails.header column of
                      Some h \<Rightarrow> h
                    | None \<Rightarrow> String_of (arrayAt (map accessorValue prop') (int (length prop') - 1))),
          props = prop'\<rparr>)"
| "normalizeColumn (Accessor column) =
     \<lparr>header = String_of (accessorValue column), props = [column]\<rparr>"

subsection \<open>getValuesFromItem\<close>

text \<open>The inner loop (lines 187 to 200): the walk of one column's accessors, from the
  current value.\<close>

fun walk :: "jsval \<Rightarrow> PropertyAccessor list \<Rightarrow> TypeError + jsval" where
  "walk v [] = Inr v"
| "walk v (p # ps) =
     (if typeof v \<noteq> ''object'' \<or> v = Null then walk v ps
      else if isArray v then
        (case p of
           PNum n \<Rightarrow> walk (arrayGet (elements v) n) ps
         | PStr s \<Rightarrow> Inl AccessorNotNumber)
      else walk (getProperty v p) ps)"

text \<open>The outer loop (lines 184 to 203), with the array \<open>values\<close> built so far.\<close>

fun columnValues ::
  "jsval \<Rightarrow> NormalizedColumn list \<Rightarrow> jsval list \<Rightarrow> TypeError + jsval list" where
  "columnValues item [] values = Inr values"
| "columnValues item (column # cs) values =
     (case walk item (props column) of
        Inl e \<Rightarrow> Inl e
      | Inr v \<Rightarrow> columnValues item cs (values @ [v]))"

definition getValuesFromItem :: "jsval \<Rightarrow> NormalizedColumn list \<Rightarrow> TypeError + jsval list" where
  "getValuesFromItem item normalizedColumns =
     (if length normalizedColumns \<noteq> 0 then columnValues item normalizedColumns []
      else if isArray item then Inr (elements item)
      else if typeof item = ''object'' then Inl NoAccessorForObject
      else Inr [item])"

subsection \<open>stringify\<close>

text \<open>The loop over the records (lines 298 to 304), with the output so far.\<close>

fun rows ::
  "jsval list \<Rightarrow> NormalizedColumn list \<Rightarrow> jsstring \<Rightarrow> jsstring \<Rightarrow> TypeError + jsstring" where
  "rows [] normalizedColumns sep output = Inr output"
| "rows (item # items) normalizedColumns sep output =
     (case getValuesFromItem item normalizedColumns of
        Inl e \<Rightarrow> Inl e
      | Inr values \<Rightarrow>
          rows items normalizedColumns sep
            (output @ join (map (\<lambda>v. getEscapedString v sep) values) sep @ CRLF))"

definition headerLine :: "NormalizedColumn list \<Rightarrow> jsstring \<Rightarrow> jsstring" where
  "headerLine normalizedColumns sep =
     join (map (\<lambda>column. getEscapedString (Str (header column)) sep) normalizedColumns) sep @ CRLF"

text \<open>Line 272: \<open>const { headers = true, separator: sep = ",", columns = [],
  bom = false } = options ?? {}\<close>. A field that is absent takes its default.\<close>

definition optionsOrEmpty :: "StringifyOptions option \<Rightarrow> StringifyOptions" where
  "optionsOrEmpty options =
     (case options of
        None \<Rightarrow> \<lparr>headers = None, separator = None, columns = None, bom = None\<rparr>
      | Some opts \<Rightarrow> opts)"

definition optHeaders :: "StringifyOptions option \<Rightarrow> bool" where
  "optHeaders options = (case headers (optionsOrEmpty options) of None \<Rightarrow> True | Some h \<Rightarrow> h)"

definition optSeparator :: "StringifyOptions option \<Rightarrow> jsstring" where
  "optSeparator options =
     (case separator (optionsOrEmpty options) of None \<Rightarrow> ascii '','' | Some s \<Rightarrow> s)"

definition optColumns :: "StringifyOptions option \<Rightarrow> Column list" where
  "optColumns options = (case columns (optionsOrEmpty options) of None \<Rightarrow> [] | Some cs \<Rightarrow> cs)"

definition optBom :: "StringifyOptions option \<Rightarrow> bool" where
  "optBom options = (case bom (optionsOrEmpty options) of None \<Rightarrow> False | Some b \<Rightarrow> b)"

definition stringify :: "jsval list \<Rightarrow> StringifyOptions option \<Rightarrow> TypeError + jsstring" where
  "stringify data options =
     (let headers' = optHeaders options;
          sep = optSeparator options;
          columns' = optColumns options;
          bom' = optBom options
      in if includes_str sep QUOTE \<or> includes_str sep CRLF then Inl SeparatorInvalid
         else
           let normalizedColumns = map normalizeColumn columns';
               output0 = (if bom' then BYTE_ORDER_MARK else []);
               output1 = (if headers' \<and> length normalizedColumns > 0
                          then output0 @ headerLine normalizedColumns sep
                          else output0)
           in rows data normalizedColumns sep output1)"

section \<open>What a column specification supplies, and the example of the documentation\<close>

text \<open>The accessors and the explicit header that a caller's column specification
  carries (the three forms of \<open>Column\<close>), read off the specification itself.\<close>

fun suppliedPath :: "Column \<Rightarrow> PropertyAccessor list" where
  "suppliedPath (Accessor a) = [a]"
| "suppliedPath (Accessors ps) = ps"
| "suppliedPath (Details d) = (case ColumnDetails.props d of Single a \<Rightarrow> [a] | Path ps \<Rightarrow> ps)"

fun suppliedHeader :: "Column \<Rightarrow> jsstring option" where
  "suppliedHeader (Details d) = ColumnDetails.header d"
| "suppliedHeader c = None"

text \<open>The data and the columns of the usage example in the documentation of
  \<open>stringify\<close> (lines 238 to 258).\<close>

definition rick :: jsval where
  "rick = Obj [(ascii ''age'', Num (Integer 70)),
               (ascii ''name'', Obj [(ascii ''first'', Str (ascii ''Rick'')),
                                     (ascii ''last'', Str (ascii ''Sanchez''))])]"

definition morty :: jsval where
  "morty = Obj [(ascii ''age'', Num (Integer 14)),
                (ascii ''name'', Obj [(ascii ''first'', Str (ascii ''Morty'')),
                                      (ascii ''last'', Str (ascii ''Smith''))])]"

definition exampleColumns :: "Column list" where
  "exampleColumns = [Accessors [PStr (ascii ''name''), PStr (ascii ''first'')], Accessor (PStr (ascii ''age''))]"

definition exampleOptions :: "StringifyOptions option" where
  "exampleOptions =
     Some \<lparr>headers = None, separator = None, columns = Some exampleColumns, bom = None\<rparr>"

section \<open>Strings\<close>

lemma JSON_serialize_object:
  "typeof v = ''object'' \<Longrightarrow> v \<noteq> Null \<Longrightarrow> \<exists>t. JSON_serialize v = Some t"
  by (cases v) simp_all

lemma includes_str_sublist: "includes_str s t \<longleftrightarrow> sublist t s"
  by (induction s) (auto simp: sublist_Cons_right)

lemma includes_str_iff: "includes_str s t \<longleftrightarrow> (\<exists>ps ss. s = ps @ t @ ss)"
  by (simp add: includes_str_sublist sublist_def)

lemma includes_str_single: "includes_str s [c] \<longleftrightarrow> c \<in> set s"
  by (induction s) auto

lemma replaceAll_single:
  "replaceAll s [q] r = concat (map (\<lambda>c. if c = q then r else [c]) s)"
  by (induction s) auto

lemma includes_str_QUOTE: "includes_str s QUOTE \<longleftrightarrow> 0x22 \<in> set s"
  by (simp add: QUOTE_def includes_str_single)

lemma includes_str_LF: "includes_str s LF \<longleftrightarrow> 0x0A \<in> set s"
  by (simp add: LF_def includes_str_single)

lemma getEscapedString_value:
  assumes "v \<noteq> Undefined" "v \<noteq> Null"
  shows "getEscapedString v sep =
    (if includes_str (valueText v) sep \<or> includes_str (valueText v) LF \<or> includes_str (valueText v) QUOTE
     then QUOTE @ concat (map (\<lambda>c. if c = 0x22 then [0x22, 0x22] else [c]) (valueText v)) @ QUOTE
     else valueText v)"
  using assms by (simp add: getEscapedString_def Let_def QUOTE_def replaceAll_single)

lemma not_wrapped:
  assumes "0x22 \<notin> set s"
  shows "s \<noteq> QUOTE @ body @ QUOTE"
  using assms by (auto simp: QUOTE_def)

lemma valueText_Str: "valueText (Str s) = s"
  by (simp add: valueText_def)

lemma getEscapedString_plain:
  assumes "\<not> includes_str s sep" "\<not> includes_str s LF" "\<not> includes_str s QUOTE"
  shows "getEscapedString (Str s) sep = s"
  using assms by (simp add: getEscapedString_def valueText_Str)

section \<open>The loops\<close>

lemma walk_append:
  "walk v (ps @ qs) = (case walk v ps of Inl e \<Rightarrow> Inl e | Inr w \<Rightarrow> walk w qs)"
  by (induction v ps rule: walk.induct) (auto split: PropertyAccessor.splits)

lemma walk_error: "walk v ps = Inl e \<Longrightarrow> e = AccessorNotNumber"
  by (induction v ps rule: walk.induct) (auto split: PropertyAccessor.splits if_splits)

lemma walk_skip: "typeof v \<noteq> ''object'' \<or> v = Null \<Longrightarrow> walk v ps = Inr v"
  by (induction ps) auto

lemma columnValues_error:
  "col \<in> set cs \<Longrightarrow> walk item (props col) = Inl e \<Longrightarrow>
   columnValues item cs vals = Inl AccessorNotNumber"
  by (induction cs arbitrary: vals) (auto split: sum.splits dest: walk_error)

lemma columnValues_Inl: "columnValues item cs vals = Inl e \<Longrightarrow> e = AccessorNotNumber"
  by (induction cs arbitrary: vals) (auto split: sum.splits dest: walk_error)

lemma getValuesFromItem_Inl_columns:
  "ncs \<noteq> [] \<Longrightarrow> getValuesFromItem item ncs = Inl e \<Longrightarrow> e = AccessorNotNumber"
  by (auto simp: getValuesFromItem_def dest: columnValues_Inl)

lemma getValuesFromItem_Inl_no_columns:
  "getValuesFromItem item [] = Inl e \<Longrightarrow> e = NoAccessorForObject"
  by (auto simp: getValuesFromItem_def split: if_splits)

lemma rows_error:
  "item \<in> set data \<Longrightarrow> getValuesFromItem item ncs = Inl e \<Longrightarrow>
   \<exists>e'. rows data ncs sep out = Inl e'"
  by (induction data arbitrary: out) (auto split: sum.splits)

lemma rows_Inl_columns:
  "ncs \<noteq> [] \<Longrightarrow> rows data ncs sep out = Inl e \<Longrightarrow> e = AccessorNotNumber"
  by (induction data arbitrary: out) (auto split: sum.splits dest: getValuesFromItem_Inl_columns)

lemma rows_Inl_no_columns:
  "rows data [] sep out = Inl e \<Longrightarrow> e = NoAccessorForObject"
  by (induction data arbitrary: out) (auto split: sum.splits dest: getValuesFromItem_Inl_no_columns)

lemma rows_output:
  "rows data ncs sep out =
     (case rows data ncs sep [] of Inl e \<Rightarrow> Inl e | Inr body \<Rightarrow> Inr (out @ body))"
proof (induction data arbitrary: out)
  case Nil
  then show ?case by simp
next
  case (Cons item items)
  show ?case
  proof (cases "getValuesFromItem item ncs")
    case (Inl e)
    then show ?thesis by simp
  next
    case (Inr vals)
    let ?line = "join (map (\<lambda>v. getEscapedString v sep) vals) sep @ CRLF"
    have "rows (item # items) ncs sep out = rows items ncs sep (out @ ?line)"
      using Inr by simp
    also have "\<dots> = (case rows items ncs sep [] of Inl e \<Rightarrow> Inl e
                      | Inr body \<Rightarrow> Inr ((out @ ?line) @ body))"
      by (rule Cons.IH)
    finally have l: "rows (item # items) ncs sep out =
        (case rows items ncs sep [] of Inl e \<Rightarrow> Inl e | Inr body \<Rightarrow> Inr (out @ ?line @ body))"
      by (simp split: sum.splits)
    have "rows (item # items) ncs sep [] = rows items ncs sep ?line"
      using Inr by simp
    also have "\<dots> = (case rows items ncs sep [] of Inl e \<Rightarrow> Inl e
                      | Inr body \<Rightarrow> Inr (?line @ body))"
      by (rule Cons.IH)
    finally have r: "rows (item # items) ncs sep [] =
        (case rows items ncs sep [] of Inl e \<Rightarrow> Inl e | Inr body \<Rightarrow> Inr (?line @ body))" .
    show ?thesis unfolding l r by (simp split: sum.splits)
  qed
qed

lemma columnValues_values:
  "map (\<lambda>c. walk item (props c)) cs = map Inr vals \<Longrightarrow>
   columnValues item cs acc = Inr (acc @ vals)"
proof (induction cs arbitrary: acc vals)
  case Nil
  then show ?case by simp
next
  case (Cons c cs)
  then obtain w ws where v: "vals = w # ws" and w: "walk item (props c) = Inr w"
    and ws: "map (\<lambda>c. walk item (props c)) cs = map Inr ws"
    by (cases vals) auto
  from Cons.IH [OF ws, of "acc @ [w]"] show ?case
    by (simp add: v w)
qed

lemma walk_Inl_string: "walk v ps = Inl e \<Longrightarrow> \<exists>k. PStr k \<in> set ps"
  by (induction v ps rule: walk.induct) (auto split: PropertyAccessor.splits if_splits)

lemma arrayAt_last:
  "ps \<noteq> [] \<Longrightarrow> arrayAt (map accessorValue ps) (int (length ps) - 1) = accessorValue (last ps)"
  by (cases ps rule: rev_cases) (simp_all add: arrayAt_def nth_append)

lemma arrayAt_single: "arrayAt [x] 0 = x"
  by (simp add: arrayAt_def)

lemma option_readers:
  "optHeaders (Some \<lparr>headers = h, separator = s, columns = c, bom = b\<rparr>) = (h \<noteq> Some False)"
  "optSeparator (Some \<lparr>headers = h, separator = s, columns = c, bom = b\<rparr>) =
     (case s of None \<Rightarrow> ascii '','' | Some x \<Rightarrow> x)"
  "optColumns (Some \<lparr>headers = h, separator = s, columns = c, bom = b\<rparr>) =
     (case c of None \<Rightarrow> [] | Some cs \<Rightarrow> cs)"
  "optBom (Some \<lparr>headers = h, separator = s, columns = c, bom = b\<rparr>) = (b = Some True)"
  by (auto simp: optHeaders_def optSeparator_def optColumns_def optBom_def optionsOrEmpty_def
      split: option.splits)

section \<open>The claims\<close>

text \<open>C1: on the two records of the documentation's example, with the columns
  \<open>[["name", "first"], "age"]\<close> and every other option defaulted, \<open>stringify\<close>
  returns exactly \<open>first,age\r\nRick,70\r\nMorty,14\r\n\<close>.\<close>

theorem stringify_example:
  "stringify [rick, morty] exampleOptions =
   Inr (ascii ''first,age'' @ CRLF @ ascii ''Rick,70'' @ CRLF @ ascii ''Morty,14'' @ CRLF)"
  by code_simp

text \<open>C2, as amended: for a value other than \<open>undefined\<close> and \<open>null\<close> and any
  separator, the escaped text is wrapped in double quotes exactly when the value's text
  contains the separator, a line feed or a double quote; when wrapped, the text between
  the outer quotes is the value's text with every double quote doubled (no backslash is
  added), and otherwise the escaped text is the value's text unchanged. For
  \<open>undefined\<close> and \<open>null\<close> the escaped text is empty, whatever the separator.\<close>

theorem getEscapedString_quoting:
  "(v = Undefined \<or> v = Null \<longrightarrow> getEscapedString v sep = [])
 \<and> (v \<noteq> Undefined \<and> v \<noteq> Null \<longrightarrow>
      ((\<exists>body. getEscapedString v sep = QUOTE @ body @ QUOTE) \<longleftrightarrow>
         (includes_str (valueText v) sep \<or> includes_str (valueText v) LF \<or>
          includes_str (valueText v) QUOTE))
    \<and> getEscapedString v sep =
         (if includes_str (valueText v) sep \<or> includes_str (valueText v) LF \<or>
             includes_str (valueText v) QUOTE
          then QUOTE @ concat (map (\<lambda>c. if c = 0x22 then [0x22, 0x22] else [c]) (valueText v)) @ QUOTE
          else valueText v))"
proof -
  let ?c = "includes_str (valueText v) sep \<or> includes_str (valueText v) LF \<or>
            includes_str (valueText v) QUOTE"
  have absent: "v = Undefined \<or> v = Null \<longrightarrow> getEscapedString v sep = []"
    by (auto simp: getEscapedString_def)
  have present: "((\<exists>body. getEscapedString v sep = QUOTE @ body @ QUOTE) \<longleftrightarrow> ?c)
    \<and> getEscapedString v sep =
         (if ?c then QUOTE @ concat (map (\<lambda>c. if c = 0x22 then [0x22, 0x22] else [c]) (valueText v)) @ QUOTE
          else valueText v)"
    if nu: "v \<noteq> Undefined" and nn: "v \<noteq> Null"
  proof -
    note eq = getEscapedString_value [OF nu nn, of sep]
    show ?thesis
    proof (cases ?c)
      case True
      then show ?thesis using eq by auto
    next
      case False
      then have "0x22 \<notin> set (valueText v)" by (simp add: includes_str_QUOTE)
      then have "\<And>body. valueText v \<noteq> QUOTE @ body @ QUOTE" by (rule not_wrapped)
      then show ?thesis using eq False by auto
    qed
  qed
  from absent present show ?thesis by blast
qed

text \<open>The amended claim at the text \<open>a",b\<close> with a comma as separator, which is
  written \<open>"a"",b"\<close>, and at \<open>undefined\<close>.\<close>

theorem getEscapedString_quoting_witness:
  "Str (ascii ''a'' @ QUOTE @ ascii '',b'') \<noteq> Undefined
 \<and> Str (ascii ''a'' @ QUOTE @ ascii '',b'') \<noteq> Null
 \<and> includes_str (valueText (Str (ascii ''a'' @ QUOTE @ ascii '',b''))) (ascii '','')
 \<and> getEscapedString (Str (ascii ''a'' @ QUOTE @ ascii '',b'')) (ascii '','') =
       QUOTE @ (ascii ''a'' @ QUOTE @ QUOTE @ ascii '',b'') @ QUOTE
 \<and> getEscapedString Undefined (ascii '','') = []"
proof -
  let ?v = "Str (ascii ''a'' @ QUOTE @ ascii '',b'')"
  let ?sep = "ascii '',''"
  have c: "includes_str (valueText ?v) ?sep"
    by code_simp
  have d: "concat (map (\<lambda>c. if c = 0x22 then [0x22, 0x22] else [c]) (valueText ?v)) =
           ascii ''a'' @ QUOTE @ QUOTE @ ascii '',b''"
    by code_simp
  have e: "getEscapedString ?v ?sep = QUOTE @ (ascii ''a'' @ QUOTE @ QUOTE @ ascii '',b'') @ QUOTE"
    using getEscapedString_quoting [of ?v ?sep] c d by simp
  have u: "getEscapedString Undefined ?sep = []"
    using getEscapedString_quoting [of Undefined ?sep] by simp
  from c e u show ?thesis by simp
qed

text \<open>The claim as stated fails for \<open>undefined\<close> with the empty separator: the empty
  separator passes the check of \<open>stringify\<close> and occurs in every text, that of
  \<open>undefined\<close> included, yet the escaped text is empty and so not wrapped in quotes,
  while the empty string value is wrapped.\<close>

theorem getEscapedString_quoting_counterexample:
  "\<not> includes_str ([] :: jsstring) QUOTE
 \<and> \<not> includes_str ([] :: jsstring) CRLF
 \<and> includes_str ([] :: jsstring) []
 \<and> includes_str (String_of Undefined) []
 \<and> getEscapedString Undefined [] = []
 \<and> getEscapedString Undefined [] \<noteq> QUOTE @ QUOTE
 \<and> getEscapedString (Str []) [] = QUOTE @ QUOTE
 \<and> stringify [Arr [Str [], Undefined]]
       (Some \<lparr>headers = None, separator = Some [], columns = None, bom = None\<rparr>) =
     Inr (QUOTE @ QUOTE @ CRLF)"
  by code_simp

text \<open>C3: whatever the data, when the separator in effect contains a double quote or
  the sequence carriage return, line feed, \<open>stringify\<close> fails with the separator's
  \<open>TypeError\<close>; no record is read, and none decides whether the error is raised.\<close>

theorem separator_error:
  assumes "includes_str (optSeparator options) QUOTE \<or> includes_str (optSeparator options) CRLF"
  shows "stringify data options = Inl SeparatorInvalid"
  using assms by (simp add: stringify_def Let_def)

text \<open>A separator with a double quote, on records that would raise another error.\<close>

theorem separator_error_witness:
  "(includes_str (optSeparator (Some \<lparr>headers = None, separator = Some (ascii ''a'' @ QUOTE),
                                      columns = None, bom = None\<rparr>)) QUOTE
    \<or> includes_str (optSeparator (Some \<lparr>headers = None, separator = Some (ascii ''a'' @ QUOTE),
                                        columns = None, bom = None\<rparr>)) CRLF)
 \<and> stringify [Obj [], Null]
       (Some \<lparr>headers = None, separator = Some (ascii ''a'' @ QUOTE), columns = None, bom = None\<rparr>) =
     Inl SeparatorInvalid
 \<and> stringify [Obj [], Null] None = Inl NoAccessorForObject"
proof -
  let ?o = "Some \<lparr>headers = None, separator = Some (ascii ''a'' @ QUOTE), columns = None, bom = None\<rparr>"
  have h: "includes_str (optSeparator ?o) QUOTE \<or> includes_str (optSeparator ?o) CRLF"
    by code_simp
  have n: "stringify [Obj [], Null] None = Inl NoAccessorForObject"
    by code_simp
  show ?thesis using h n separator_error [OF h, of "[Obj [], Null]"] by simp
qed

text \<open>C4: when \<open>stringify\<close> returns, its output is the byte-order mark (if asked for),
  then the header line, then what the same call returns with \<open>headers: false\<close> and no
  byte-order mark, the lines of the records. The header line is there exactly when the
  option \<open>headers\<close> is \<open>true\<close> or left out and the option \<open>columns\<close> is given and
  not empty, so never with \<open>headers: false\<close> and never without column
  specifications; it is the headers of the normalized columns, each escaped by
  \<open>getEscapedString\<close> as a data value is, joined by the separator and ended by carriage
  return, line feed. Leaving the options out is giving none of them.\<close>

theorem header_line:
  assumes "stringify data (Some \<lparr>headers = h, separator = s, columns = c, bom = b\<rparr>) = Inr out"
  shows "(\<exists>body.
           stringify data (Some \<lparr>headers = Some False, separator = s, columns = c, bom = Some False\<rparr>)
             = Inr body
         \<and> rows data (map normalizeColumn (case c of None \<Rightarrow> [] | Some cs \<Rightarrow> cs))
              (case s of None \<Rightarrow> ascii '','' | Some x \<Rightarrow> x) [] = Inr body
         \<and> out = (if b = Some True then BYTE_ORDER_MARK else []) @
                 (if h \<noteq> Some False \<and> c \<noteq> None \<and> c \<noteq> Some []
                  then join (map (\<lambda>col. getEscapedString (Str (header (normalizeColumn col)))
                                          (case s of None \<Rightarrow> ascii '','' | Some x \<Rightarrow> x))
                               (case c of None \<Rightarrow> [] | Some cs \<Rightarrow> cs))
                         (case s of None \<Rightarrow> ascii '','' | Some x \<Rightarrow> x) @ CRLF
                  else []) @
                 body)
       \<and> stringify data None =
           stringify data (Some \<lparr>headers = None, separator = None, columns = None, bom = None\<rparr>)"
proof -
  let ?o = "Some \<lparr>headers = h, separator = s, columns = c, bom = b\<rparr>"
  let ?o' = "Some \<lparr>headers = Some False, separator = s, columns = c, bom = Some False\<rparr>"
  let ?sep = "case s of None \<Rightarrow> ascii '','' | Some x \<Rightarrow> x"
  let ?cols = "case c of None \<Rightarrow> [] | Some cs \<Rightarrow> cs"
  let ?ncs = "map normalizeColumn ?cols"
  let ?hdr = "join (map (\<lambda>col. getEscapedString (Str (header (normalizeColumn col))) ?sep) ?cols) ?sep @ CRLF"
  have hl: "headerLine ?ncs ?sep = ?hdr"
    by (simp add: headerLine_def comp_def)
  have ce: "(c \<noteq> None \<and> c \<noteq> Some []) = (?cols \<noteq> [])"
    by (cases c) auto
  have valid: "\<not> (includes_str ?sep QUOTE \<or> includes_str ?sep CRLF)"
    using assms by (auto simp: stringify_def Let_def option_readers)
  have r: "rows data ?ncs ?sep
             ((if b = Some True then BYTE_ORDER_MARK else []) @
              (if h \<noteq> Some False \<and> ?cols \<noteq> [] then ?hdr else [])) = Inr out"
    using assms valid by (auto simp: stringify_def Let_def option_readers hl split: if_splits)
  from r obtain body where b: "rows data ?ncs ?sep [] = Inr body"
    and o: "out = ((if b = Some True then BYTE_ORDER_MARK else []) @
              (if h \<noteq> Some False \<and> ?cols \<noteq> [] then ?hdr else [])) @ body"
    by (subst (asm) rows_output) (auto split: sum.splits)
  have off: "stringify data ?o' = Inr body"
    using valid b by (simp add: stringify_def Let_def option_readers)
  have none: "stringify data None =
      stringify data (Some \<lparr>headers = None, separator = None, columns = None, bom = None\<rparr>)"
    by (simp add: stringify_def optHeaders_def optSeparator_def optColumns_def optBom_def
        optionsOrEmpty_def)
  from off b o none show ?thesis unfolding ce by auto
qed

text \<open>The example of the documentation with a byte-order mark: with \<open>headers\<close> left
  out, with \<open>headers: true\<close> and with \<open>headers: false\<close>; and two arrays without
  columns, with \<open>headers: true\<close> and without options.\<close>

theorem header_line_witness:
  "stringify [rick, morty]
     (Some \<lparr>headers = None, separator = None, columns = Some exampleColumns, bom = Some True\<rparr>) =
   Inr (BYTE_ORDER_MARK @ (ascii ''first,age'' @ CRLF) @ ascii ''Rick,70'' @ CRLF @
        ascii ''Morty,14'' @ CRLF)
 \<and> stringify [rick, morty]
     (Some \<lparr>headers = Some True, separator = None, columns = Some exampleColumns, bom = Some True\<rparr>) =
   Inr (BYTE_ORDER_MARK @ (ascii ''first,age'' @ CRLF) @ ascii ''Rick,70'' @ CRLF @
        ascii ''Morty,14'' @ CRLF)
 \<and> stringify [rick, morty]
     (Some \<lparr>headers = Some False, separator = None, columns = Some exampleColumns, bom = Some True\<rparr>) =
   Inr (BYTE_ORDER_MARK @ ascii ''Rick,70'' @ CRLF @ ascii ''Morty,14'' @ CRLF)
 \<and> stringify [rick, morty]
     (Some \<lparr>headers = Some False, separator = None, columns = Some exampleColumns, bom = Some False\<rparr>) =
   Inr (ascii ''Rick,70'' @ CRLF @ ascii ''Morty,14'' @ CRLF)
 \<and> stringify [Arr [Num (Integer 0)], Arr [Num (Integer 1)]]
     (Some \<lparr>headers = Some True, separator = None, columns = None, bom = None\<rparr>) =
   Inr (ascii ''0'' @ CRLF @ ascii ''1'' @ CRLF)
 \<and> stringify [Arr [Num (Integer 0)], Arr [Num (Integer 1)]] None =
   Inr (ascii ''0'' @ CRLF @ ascii ''1'' @ CRLF)"
proof -
  let ?lines = "ascii ''Rick,70'' @ CRLF @ ascii ''Morty,14'' @ CRLF"
  let ?hdr = "ascii ''first,age'' @ CRLF"
  let ?rows = "ascii ''0'' @ CRLF @ ascii ''1'' @ CRLF"
  let ?arrs = "[Arr [Num (Integer 0)], Arr [Num (Integer 1)]]"
  have ne: "exampleColumns \<noteq> []"
    by (simp add: exampleColumns_def)
  have l: "join (map (\<lambda>col. getEscapedString (Str (header (normalizeColumn col))) (ascii '',''))
                  exampleColumns) (ascii '','') = ascii ''first,age''"
    by code_simp
  have off: "stringify [rick, morty]
      (Some \<lparr>headers = Some False, separator = None, columns = Some exampleColumns, bom = Some False\<rparr>) =
      Inr ?lines"
    by code_simp
  have d: "\<not> isl (stringify [rick, morty]
      (Some \<lparr>headers = None, separator = None, columns = Some exampleColumns, bom = Some True\<rparr>))"
    by code_simp
  have t: "\<not> isl (stringify [rick, morty]
      (Some \<lparr>headers = Some True, separator = None, columns = Some exampleColumns, bom = Some True\<rparr>))"
    by code_simp
  have f: "\<not> isl (stringify [rick, morty]
      (Some \<lparr>headers = Some False, separator = None, columns = Some exampleColumns, bom = Some True\<rparr>))"
    by code_simp
  have a: "\<not> isl (stringify ?arrs
      (Some \<lparr>headers = Some True, separator = None, columns = None, bom = None\<rparr>))"
    by code_simp
  have ao: "stringify ?arrs
      (Some \<lparr>headers = Some False, separator = None, columns = None, bom = Some False\<rparr>) = Inr ?rows"
    by code_simp
  have an: "\<not> isl (stringify ?arrs
      (Some \<lparr>headers = None, separator = None, columns = None, bom = None\<rparr>))"
    by code_simp
  from d obtain o1 where d1: "stringify [rick, morty]
      (Some \<lparr>headers = None, separator = None, columns = Some exampleColumns, bom = Some True\<rparr>) = Inr o1"
    by (cases "stringify [rick, morty]
      (Some \<lparr>headers = None, separator = None, columns = Some exampleColumns, bom = Some True\<rparr>)") auto
  from header_line [OF d1] off have 1: "o1 = BYTE_ORDER_MARK @ ?hdr @ ?lines"
    by (simp add: ne l)
  from t obtain o2 where t1: "stringify [rick, morty]
      (Some \<lparr>headers = Some True, separator = None, columns = Some exampleColumns, bom = Some True\<rparr>) = Inr o2"
    by (cases "stringify [rick, morty]
      (Some \<lparr>headers = Some True, separator = None, columns = Some exampleColumns, bom = Some True\<rparr>)") auto
  from header_line [OF t1] off have 2: "o2 = BYTE_ORDER_MARK @ ?hdr @ ?lines"
    by (simp add: ne l)
  from f obtain o3 where f1: "stringify [rick, morty]
      (Some \<lparr>headers = Some False, separator = None, columns = Some exampleColumns, bom = Some True\<rparr>) = Inr o3"
    by (cases "stringify [rick, morty]
      (Some \<lparr>headers = Some False, separator = None, columns = Some exampleColumns, bom = Some True\<rparr>)") auto
  from header_line [OF f1] off have 3: "o3 = BYTE_ORDER_MARK @ ?lines"
    by simp
  from a obtain o4 where a1: "stringify ?arrs
      (Some \<lparr>headers = Some True, separator = None, columns = None, bom = None\<rparr>) = Inr o4"
    by (cases "stringify ?arrs
      (Some \<lparr>headers = Some True, separator = None, columns = None, bom = None\<rparr>)") auto
  from header_line [OF a1] ao have 4: "o4 = ?rows"
    by simp
  from an obtain o5 where n1: "stringify ?arrs
      (Some \<lparr>headers = None, separator = None, columns = None, bom = None\<rparr>) = Inr o5"
    by (cases "stringify ?arrs
      (Some \<lparr>headers = None, separator = None, columns = None, bom = None\<rparr>)") auto
  from header_line [OF n1] ao have 5: "o5 = ?rows"
    by simp
  from header_line [OF n1] n1 have 6: "stringify ?arrs None = Inr o5"
    by simp
  from d1 t1 f1 a1 off 6 show ?thesis unfolding 1 2 3 4 5 by blast
qed

text \<open>C5, as amended: the walk of a column's accessors takes them in order, a key of a
  plain object or an index of an array leading to the value found there, from which the
  walk goes on; it skips every step that remains, leaving the current value as it is
  and raising nothing, once that value is not an object (\<open>null\<close> included), at
  whatever step it is reached; an index outside an array
  and a key that a plain object neither has nor inherits from \<open>Object.prototype\<close>
  give \<open>undefined\<close>, not an error; and in the line of a record each column gives one
  field, the empty one when its value is \<open>undefined\<close> or \<open>null\<close>.\<close>

theorem walk_absent:
  "(map_of own (propertyKey q) = Some x \<longrightarrow> walk (Obj own) (q # rest) = walk x rest)
 \<and> (0 \<le> j \<and> j < int (length ys) \<longrightarrow>
      walk (Arr ys) (PNum (Integer j) # rest) = walk (ys ! nat j) rest)
 \<and> (typeof v \<noteq> ''object'' \<or> v = Null \<longrightarrow> walk v ps = Inr v)
 \<and> (walk v ps = Inr w \<and> (typeof w \<noteq> ''object'' \<or> w = Null) \<longrightarrow> walk v (ps @ qs) = Inr w)
 \<and> (map_of kvs (propertyKey p) = None \<and> propertyKey p \<notin> set inheritedKeys \<longrightarrow>
      walk (Obj kvs) (p # ps) = Inr Undefined)
 \<and> (\<not> (0 \<le> i \<and> i < int (length xs)) \<longrightarrow> walk (Arr xs) (PNum (Integer i) # ps) = Inr Undefined)
 \<and> getEscapedString Undefined sep = [] \<and> getEscapedString Null sep = []
 \<and> (cols \<noteq> [] \<and> map (\<lambda>c. walk item (props c)) cols = map Inr vals \<longrightarrow>
      rows (item # items) cols sep out =
      rows items cols sep
        (out @ join (map (\<lambda>x. if x = Undefined \<or> x = Null then [] else getEscapedString x sep) vals) sep
             @ CRLF))"
proof -
  have f: "map_of own (propertyKey q) = Some x \<longrightarrow> walk (Obj own) (q # rest) = walk x rest"
    by (simp add: objectGet_def)
  have g: "0 \<le> j \<and> j < int (length ys) \<longrightarrow>
      walk (Arr ys) (PNum (Integer j) # rest) = walk (ys ! nat j) rest"
    by (simp add: arrayAt_def)
  have a: "typeof v \<noteq> ''object'' \<or> v = Null \<longrightarrow> walk v ps = Inr v"
    using walk_skip by blast
  have a': "walk v ps = Inr w \<and> (typeof w \<noteq> ''object'' \<or> w = Null) \<longrightarrow> walk v (ps @ qs) = Inr w"
    by (auto simp: walk_append walk_skip)
  have u: "walk Undefined ps = Inr Undefined"
    by (rule walk_skip) simp
  have b: "map_of kvs (propertyKey p) = None \<and> propertyKey p \<notin> set inheritedKeys \<longrightarrow>
      walk (Obj kvs) (p # ps) = Inr Undefined"
    by (simp add: objectGet_def prototypeGet_def inheritedKeys_def u)
  have c: "\<not> (0 \<le> i \<and> i < int (length xs)) \<longrightarrow> walk (Arr xs) (PNum (Integer i) # ps) = Inr Undefined"
    by (simp add: arrayAt_def u)
  have d: "getEscapedString Undefined sep = []" "getEscapedString Null sep = []"
    by (simp_all add: getEscapedString_def)
  have m: "map (\<lambda>x. if x = Undefined \<or> x = Null then [] else getEscapedString x sep) vals =
           map (\<lambda>x. getEscapedString x sep) vals"
    by (rule map_cong) (auto simp: d)
  have e: "cols \<noteq> [] \<and> map (\<lambda>c. walk item (props c)) cols = map Inr vals \<longrightarrow>
      rows (item # items) cols sep out =
      rows items cols sep
        (out @ join (map (\<lambda>x. if x = Undefined \<or> x = Null then [] else getEscapedString x sep) vals) sep
             @ CRLF)"
    unfolding m
    by (auto simp: getValuesFromItem_def dest: columnValues_values [where acc = "[]"])
  from f g a a' b c d e show ?thesis by blast
qed

text \<open>The record \<open>{a: null, b: 1, c: {d: "x"}}\<close> with the columns \<open>a\<close>, \<open>b\<close>,
  \<open>["c", "d", "e"]\<close>, \<open>z\<close> and \<open>["a", "b"]\<close>: the line \<open>,1,x,,\<close>, before the
  line of the record that follows.\<close>

theorem walk_absent_witness:
  "typeof (Str (ascii ''x'')) \<noteq> ''object''
 \<and> walk (Str (ascii ''x'')) [PStr (ascii ''e''), PNum (Integer 0)] = Inr (Str (ascii ''x''))
 \<and> walk (Obj [(ascii ''a'', Null), (ascii ''b'', Num (Integer 1)),
               (ascii ''c'', Obj [(ascii ''d'', Str (ascii ''x''))])])
      ([PStr (ascii ''c''), PStr (ascii ''d'')] @ [PStr (ascii ''e'')]) = Inr (Str (ascii ''x''))
 \<and> walk (Obj [(ascii ''a'', Num (Integer 1))]) [PStr (ascii ''b''), PStr (ascii ''e''), PNum (Integer 0)] =
     Inr Undefined
 \<and> walk (Arr [Num (Integer 7)]) [PNum (Integer 1), PStr (ascii ''e''), PNum (Integer 0)] = Inr Undefined
 \<and> walk (Obj [(ascii ''a'', Null), (ascii ''b'', Num (Integer 1)),
               (ascii ''c'', Obj [(ascii ''d'', Str (ascii ''x''))])])
      [PStr (ascii ''c''), PStr (ascii ''d'')] =
     walk (Obj [(ascii ''d'', Str (ascii ''x''))]) [PStr (ascii ''d'')]
 \<and> walk (Arr [Null, Obj [(ascii ''d'', Str (ascii ''x''))]]) [PNum (Integer 1), PStr (ascii ''d'')] =
     walk (Obj [(ascii ''d'', Str (ascii ''x''))]) [PStr (ascii ''d'')]
 \<and> rows [Obj [(ascii ''a'', Null), (ascii ''b'', Num (Integer 1)),
               (ascii ''c'', Obj [(ascii ''d'', Str (ascii ''x''))])],
          Obj [(ascii ''b'', Num (Integer 2))]]
      (map normalizeColumn
         [Accessor (PStr (ascii ''a'')), Accessor (PStr (ascii ''b'')),
          Accessors [PStr (ascii ''c''), PStr (ascii ''d''), PStr (ascii ''e'')],
          Accessor (PStr (ascii ''z'')), Accessors [PStr (ascii ''a''), PStr (ascii ''b'')]])
      (ascii '','') [] =
     Inr (ascii '',1,x,,'' @ CRLF @ ascii '',2,,,'' @ CRLF)"
proof -
  let ?item = "Obj [(ascii ''a'', Null), (ascii ''b'', Num (Integer 1)),
                    (ascii ''c'', Obj [(ascii ''d'', Str (ascii ''x''))])]"
  let ?next = "Obj [(ascii ''b'', Num (Integer 2))]"
  let ?cols = "map normalizeColumn
         [Accessor (PStr (ascii ''a'')), Accessor (PStr (ascii ''b'')),
          Accessors [PStr (ascii ''c''), PStr (ascii ''d''), PStr (ascii ''e'')],
          Accessor (PStr (ascii ''z'')), Accessors [PStr (ascii ''a''), PStr (ascii ''b'')]]"
  let ?vals = "[Null, Num (Integer 1), Str (ascii ''x''), Undefined, Null]"
  note w = walk_absent [where v = "Str (ascii ''x'')" and ps = "[PStr (ascii ''e''), PNum (Integer 0)]"
      and kvs = "[(ascii ''a'', Num (Integer 1))]" and p = "PStr (ascii ''b'')" and i = 1
      and xs = "[Num (Integer 7)]" and sep = "ascii '',''"]
  note w2 = walk_absent [where v = ?item and ps = "[PStr (ascii ''c''), PStr (ascii ''d'')]"
      and w = "Str (ascii ''x'')" and qs = "[PStr (ascii ''e'')]"
      and item = ?item and items = "[?next]" and cols = ?cols and vals = ?vals
      and sep = "ascii '',''" and out = "[]"
      and own = "[(ascii ''a'', Null), (ascii ''b'', Num (Integer 1)),
                    (ascii ''c'', Obj [(ascii ''d'', Str (ascii ''x''))])]"
      and q = "PStr (ascii ''c'')" and x = "Obj [(ascii ''d'', Str (ascii ''x''))]"
      and rest = "[PStr (ascii ''d'')]" and j = 1
      and ys = "[Null, Obj [(ascii ''d'', Str (ascii ''x''))]]"]
  have k: "map_of [(ascii ''a'', Null), (ascii ''b'', Num (Integer 1)),
                   (ascii ''c'', Obj [(ascii ''d'', Str (ascii ''x''))])] (propertyKey (PStr (ascii ''c''))) =
           Some (Obj [(ascii ''d'', Str (ascii ''x''))])"
    by code_simp
  have j: "0 \<le> (1 :: int) \<and> (1 :: int) < int (length [Null, Obj [(ascii ''d'', Str (ascii ''x''))]])"
    "[Null, Obj [(ascii ''d'', Str (ascii ''x''))]] ! nat 1 = Obj [(ascii ''d'', Str (ascii ''x''))]"
    by simp_all
  have a: "typeof (Str (ascii ''x'')) \<noteq> ''object''"
    by simp
  have b: "map_of [(ascii ''a'', Num (Integer 1))] (propertyKey (PStr (ascii ''b''))) = None"
    "propertyKey (PStr (ascii ''b'')) \<notin> set inheritedKeys"
    by code_simp+
  have c: "\<not> (0 \<le> (1 :: int) \<and> (1 :: int) < int (length [Num (Integer 7)]))"
    by simp
  have d: "walk ?item [PStr (ascii ''c''), PStr (ascii ''d'')] = Inr (Str (ascii ''x''))"
    by code_simp
  have e: "?cols \<noteq> []" "map (\<lambda>c. walk ?item (props c)) ?cols = map Inr ?vals"
    by code_simp+
  have l: "join (map (\<lambda>x. if x = Undefined \<or> x = Null then [] else getEscapedString x (ascii '',''))
                  ?vals) (ascii '','') = ascii '',1,x,,''"
    by code_simp
  have r: "rows [?next] ?cols (ascii '','') ([] @ ascii '',1,x,,'' @ CRLF) =
           Inr (ascii '',1,x,,'' @ CRLF @ ascii '',2,,,'' @ CRLF)"
    by code_simp
  from w a have 1: "walk (Str (ascii ''x'')) [PStr (ascii ''e''), PNum (Integer 0)] = Inr (Str (ascii ''x''))"
    by blast
  from w2 d a have 2: "walk ?item ([PStr (ascii ''c''), PStr (ascii ''d'')] @ [PStr (ascii ''e'')]) =
      Inr (Str (ascii ''x''))"
    by blast
  from w b have 3: "walk (Obj [(ascii ''a'', Num (Integer 1))])
      [PStr (ascii ''b''), PStr (ascii ''e''), PNum (Integer 0)] = Inr Undefined"
    by blast
  from w c have 4: "walk (Arr [Num (Integer 7)]) [PNum (Integer 1), PStr (ascii ''e''), PNum (Integer 0)] =
      Inr Undefined"
    by blast
  from w2 e have "rows (?item # [?next]) ?cols (ascii '','') [] =
      rows [?next] ?cols (ascii '','')
        ([] @ join (map (\<lambda>x. if x = Undefined \<or> x = Null then [] else getEscapedString x (ascii '',''))
                     ?vals) (ascii '','') @ CRLF)"
    by blast
  then have 5: "rows [?item, ?next] ?cols (ascii '','') [] =
      Inr (ascii '',1,x,,'' @ CRLF @ ascii '',2,,,'' @ CRLF)"
    unfolding l r .
  from w2 k have 6: "walk ?item [PStr (ascii ''c''), PStr (ascii ''d'')] =
      walk (Obj [(ascii ''d'', Str (ascii ''x''))]) [PStr (ascii ''d'')]"
    by blast
  from w2 j(1) have "walk (Arr [Null, Obj [(ascii ''d'', Str (ascii ''x''))]])
        [PNum (Integer 1), PStr (ascii ''d'')] =
      walk ([Null, Obj [(ascii ''d'', Str (ascii ''x''))]] ! nat 1) [PStr (ascii ''d'')]"
    by blast
  then have 7: "walk (Arr [Null, Obj [(ascii ''d'', Str (ascii ''x''))]])
        [PNum (Integer 1), PStr (ascii ''d'')] =
      walk (Obj [(ascii ''d'', Str (ascii ''x''))]) [PStr (ascii ''d'')]"
    unfolding j(2) .
  from a 1 2 3 4 5 6 7 show ?thesis by blast
qed

text \<open>The claim as stated fails for a key that the record lacks but
  \<open>Object.prototype\<close> supplies: on the empty record \<open>{}\<close> the column \<open>toString\<close>
  resolves to the inherited function, and the field is its source text, not the empty
  field.\<close>

theorem walk_absent_counterexample:
  "map_of ([] :: (jsstring \<times> jsval) list) (propertyKey (PStr (ascii ''toString''))) = None
 \<and> walk (Obj []) [PStr (ascii ''toString'')] = Inr (Fun (ascii ''toString''))
 \<and> getEscapedString (Fun (ascii ''toString'')) (ascii '','') =
     ascii ''function toString() { [native code] }''
 \<and> stringify [Obj []]
       (Some \<lparr>headers = None, separator = None,
              columns = Some [Accessor (PStr (ascii ''toString''))], bom = None\<rparr>) =
     Inr (ascii ''toString'' @ CRLF @ ascii ''function toString() { [native code] }'' @ CRLF)"
  by code_simp

text \<open>C6, as amended: when, for some record of the data and some column, the walk of
  the accessors before a string accessor has reached an array, \<open>stringify\<close> returns no
  output at all but a \<open>TypeError\<close>: that of the accessor (unless the separator was
  already refused, which is raised first). An accessor that is a number never raises:
  on an array it reads the element of that index, and \<open>undefined\<close> when it is not an
  integer; the accessor's error comes from a string accessor only.\<close>

theorem accessor_type_error:
  "(item \<in> set data \<and> col \<in> set cols \<and> props (normalizeColumn col) = ps @ PStr k # rest \<and>
    walk item ps = Inr (Arr xs) \<longrightarrow>
      stringify data (Some \<lparr>headers = h, separator = s, columns = Some cols, bom = b\<rparr>) =
      Inl (if includes_str (case s of None \<Rightarrow> ascii '','' | Some x \<Rightarrow> x) QUOTE \<or>
              includes_str (case s of None \<Rightarrow> ascii '','' | Some x \<Rightarrow> x) CRLF
           then SeparatorInvalid else AccessorNotNumber))
 \<and> walk (Arr xs) (PNum n # rest) = walk (arrayGet xs n) rest
 \<and> walk (Arr xs) (PNum (Other t) # rest) = Inr Undefined
 \<and> (walk v path = Inl e \<longrightarrow> e = AccessorNotNumber \<and> (\<exists>k. PStr k \<in> set path))"
proof -
  let ?o = "Some \<lparr>headers = h, separator = s, columns = Some cols, bom = b\<rparr>"
  let ?ncs = "map normalizeColumn cols"
  have 1: "stringify data ?o =
      Inl (if includes_str (case s of None \<Rightarrow> ascii '','' | Some x \<Rightarrow> x) QUOTE \<or>
              includes_str (case s of None \<Rightarrow> ascii '','' | Some x \<Rightarrow> x) CRLF
           then SeparatorInvalid else AccessorNotNumber)"
    if mem: "item \<in> set data" and col: "col \<in> set cols"
      and p: "props (normalizeColumn col) = ps @ PStr k # rest"
      and w: "walk item ps = Inr (Arr xs)"
  proof -
    have wl: "walk item (props (normalizeColumn col)) = Inl AccessorNotNumber"
      using p w by (simp add: walk_append)
    have ne: "?ncs \<noteq> []" using col by auto
    have "normalizeColumn col \<in> set ?ncs" using col by simp
    then have "columnValues item ?ncs [] = Inl AccessorNotNumber"
      using wl by (rule columnValues_error)
    then have g: "getValuesFromItem item ?ncs = Inl AccessorNotNumber"
      using ne by (simp add: getValuesFromItem_def)
    have "rows data ?ncs sep out = Inl AccessorNotNumber" for sep out
    proof -
      obtain e where "rows data ?ncs sep out = Inl e"
        using rows_error [OF mem g] by blast
      then show ?thesis using rows_Inl_columns [OF ne] by blast
    qed
    then show ?thesis by (simp add: stringify_def Let_def option_readers)
  qed
  have 2: "walk (Arr xs) (PNum n # rest) = walk (arrayGet xs n) rest"
    by simp
  have 3: "walk (Arr xs) (PNum (Other t) # rest) = Inr Undefined"
    by (simp add: walk_skip)
  have 4: "walk v path = Inl e \<longrightarrow> e = AccessorNotNumber \<and> (\<exists>k. PStr k \<in> set path)"
    using walk_error walk_Inl_string by blast
  from 1 2 3 4 show ?thesis by blast
qed

text \<open>The record \<open>{xs: [1]}\<close> after a sound one, with the column \<open>["xs", "length"]\<close>.\<close>

theorem accessor_type_error_witness:
  "Obj [(ascii ''xs'', Arr [Num (Integer 1)])] \<in> set [Obj [], Obj [(ascii ''xs'', Arr [Num (Integer 1)])]]
 \<and> props (normalizeColumn (Accessors [PStr (ascii ''xs''), PStr (ascii ''length'')])) =
       [PStr (ascii ''xs'')] @ PStr (ascii ''length'') # []
 \<and> walk (Obj [(ascii ''xs'', Arr [Num (Integer 1)])]) [PStr (ascii ''xs'')] = Inr (Arr [Num (Integer 1)])
 \<and> stringify [Obj [], Obj [(ascii ''xs'', Arr [Num (Integer 1)])]]
       (Some \<lparr>headers = None, separator = None,
              columns = Some [Accessors [PStr (ascii ''xs''), PStr (ascii ''length'')]],
              bom = None\<rparr>) = Inl AccessorNotNumber
 \<and> walk (Obj [(ascii ''xs'', Arr [Num (Integer 1)])]) [PStr (ascii ''xs''), PStr (ascii ''length'')] =
     Inl AccessorNotNumber"
proof -
  let ?item = "Obj [(ascii ''xs'', Arr [Num (Integer 1)])]"
  let ?col = "Accessors [PStr (ascii ''xs''), PStr (ascii ''length'')]"
  note t = accessor_type_error [where item = ?item and data = "[Obj [], ?item]" and col = ?col
      and cols = "[?col]" and ps = "[PStr (ascii ''xs'')]" and k = "ascii ''length''" and rest = "[]"
      and xs = "[Num (Integer 1)]" and h = None and s = None and b = None]
  have m: "?item \<in> set [Obj [], ?item]"
    by simp
  have c: "?col \<in> set [?col]"
    by simp
  have p: "props (normalizeColumn ?col) = [PStr (ascii ''xs'')] @ PStr (ascii ''length'') # []"
    by simp
  have w: "walk ?item [PStr (ascii ''xs'')] = Inr (Arr [Num (Integer 1)])"
    by code_simp
  have s: "\<not> (includes_str (ascii '','') QUOTE \<or> includes_str (ascii '','') CRLF)"
    by code_simp
  have e: "walk ?item [PStr (ascii ''xs''), PStr (ascii ''length'')] = Inl AccessorNotNumber"
    by code_simp
  from t m c p w s have 1: "stringify [Obj [], ?item]
      (Some \<lparr>headers = None, separator = None, columns = Some [?col], bom = None\<rparr>) =
      Inl AccessorNotNumber"
    by simp
  from m p w 1 e show ?thesis by blast
qed

text \<open>The claim as stated fails for an accessor that is a number but not an integer:
  the column \<open>0.5\<close> on the record \<open>[1, 2]\<close> raises nothing, the field is empty.\<close>

theorem accessor_type_error_counterexample:
  "walk (Arr [Num (Integer 1), Num (Integer 2)]) [PNum (Other (ascii ''0.5''))] = Inr Undefined
 \<and> stringify [Arr [Num (Integer 1), Num (Integer 2)]]
       (Some \<lparr>headers = None, separator = None,
              columns = Some [Accessor (PNum (Other (ascii ''0.5'')))], bom = None\<rparr>) =
     Inr (ascii ''0.5'' @ CRLF @ CRLF)
 \<and> stringify [Arr [Num (Integer 1), Num (Integer 2)]]
       (Some \<lparr>headers = None, separator = None,
              columns = Some [Accessor (PNum (Other (ascii ''NaN'')))], bom = None\<rparr>) =
     Inr (ascii ''NaN'' @ CRLF @ CRLF)"
  by code_simp

text \<open>C7, as amended: without column specifications, an array record gives its
  elements as the fields, in order; a plain object record raises the missing-accessor
  \<open>TypeError\<close>, which is then the result of the whole call, raised when that record
  is reached; and a record that is not of type "object" (\<open>undefined\<close>, a boolean, a
  number, a string) gives the one-field row of itself.\<close>

theorem no_columns_mode:
  "getValuesFromItem (Arr xs) [] = Inr xs
 \<and> getValuesFromItem (Obj kvs) [] = Inl NoAccessorForObject
 \<and> (typeof v \<noteq> ''object'' \<longrightarrow> getValuesFromItem v [] = Inr [v])
 \<and> (optColumns options = [] \<and> Obj kvs \<in> set data \<and>
      \<not> includes_str (optSeparator options) QUOTE \<and> \<not> includes_str (optSeparator options) CRLF
      \<longrightarrow> stringify data options = Inl NoAccessorForObject)
 \<and> (rows items [] sep out = Inr out' \<longrightarrow>
      rows (items @ Obj kvs # later) [] sep out = Inl NoAccessorForObject)"
proof -
  have a: "getValuesFromItem (Arr xs) [] = Inr xs"
    by (simp add: getValuesFromItem_def)
  have b: "getValuesFromItem (Obj kvs) [] = Inl NoAccessorForObject"
    by (simp add: getValuesFromItem_def)
  have c: "typeof v \<noteq> ''object'' \<longrightarrow> getValuesFromItem v [] = Inr [v]"
    by (cases v) (simp_all add: getValuesFromItem_def)
  have r: "rows data [] sep out = Inl NoAccessorForObject" if mem: "Obj kvs \<in> set data"
    for data sep out
  proof -
    obtain e where "rows data [] sep out = Inl e"
      using rows_error [OF mem b] by blast
    then show ?thesis using rows_Inl_no_columns by blast
  qed
  have d: "optColumns options = [] \<and> Obj kvs \<in> set data \<and>
      \<not> includes_str (optSeparator options) QUOTE \<and> \<not> includes_str (optSeparator options) CRLF
      \<longrightarrow> stringify data options = Inl NoAccessorForObject"
    using r by (simp add: stringify_def Let_def)
  have e: "rows items [] sep out = Inr out' \<longrightarrow>
      rows (items @ Obj kvs # later) [] sep out = Inl NoAccessorForObject"
    using r [of "items @ Obj kvs # later"] by simp
  from a b c d e show ?thesis by blast
qed

theorem no_columns_mode_witness:
  "typeof (Num (Integer 3)) \<noteq> ''object''
 \<and> getValuesFromItem (Num (Integer 3)) [] = Inr [Num (Integer 3)]
 \<and> optColumns None = []
 \<and> Obj [(ascii ''a'', Num (Integer 1))] \<in> set [Arr [Num (Integer 1)], Obj [(ascii ''a'', Num (Integer 1))]]
 \<and> \<not> includes_str (optSeparator None) QUOTE
 \<and> \<not> includes_str (optSeparator None) CRLF
 \<and> stringify [Arr [Num (Integer 1)], Obj [(ascii ''a'', Num (Integer 1))]] None = Inl NoAccessorForObject
 \<and> rows [Arr [Num (Integer 1)]] [] (ascii '','') [] = Inr (ascii ''1'' @ CRLF)
 \<and> rows ([Arr [Num (Integer 1)]] @ Obj [(ascii ''a'', Num (Integer 1))] # [Arr []]) [] (ascii '','') [] =
     Inl NoAccessorForObject"
proof -
  let ?obj = "Obj [(ascii ''a'', Num (Integer 1))]"
  note t = no_columns_mode [where kvs = "[(ascii ''a'', Num (Integer 1))]" and v = "Num (Integer 3)"
      and options = None and data = "[Arr [Num (Integer 1)], ?obj]" and items = "[Arr [Num (Integer 1)]]"
      and sep = "ascii '',''" and out = "[]" and out' = "ascii ''1'' @ CRLF" and later = "[Arr []]"]
  have a: "typeof (Num (Integer 3)) \<noteq> ''object''"
    by simp
  have b: "optColumns None = []"
    by (simp add: optColumns_def optionsOrEmpty_def)
  have c: "?obj \<in> set [Arr [Num (Integer 1)], ?obj]"
    by simp
  have d: "\<not> includes_str (optSeparator None) QUOTE" "\<not> includes_str (optSeparator None) CRLF"
    by code_simp+
  have e: "rows [Arr [Num (Integer 1)]] [] (ascii '','') [] = Inr (ascii ''1'' @ CRLF)"
    by code_simp
  from t a have 1: "getValuesFromItem (Num (Integer 3)) [] = Inr [Num (Integer 3)]" by blast
  from t b c d have 2: "stringify [Arr [Num (Integer 1)], ?obj] None = Inl NoAccessorForObject" by blast
  from t e have 3: "rows ([Arr [Num (Integer 1)]] @ ?obj # [Arr []]) [] (ascii '','') [] = Inl NoAccessorForObject"
    by blast
  from a b c d e 1 2 3 show ?thesis by blast
qed

text \<open>The claim as stated fails for the record \<open>null\<close>, which is neither an array
  nor a plain object: it is not treated as a one-field row, the call fails with the
  missing-accessor error.\<close>

theorem no_columns_mode_counterexample:
  "\<not> isArray Null
 \<and> getValuesFromItem Null [] \<noteq> Inr [Null]
 \<and> getValuesFromItem Null [] = Inl NoAccessorForObject
 \<and> stringify [Null] None = Inl NoAccessorForObject"
  by code_simp

text \<open>C8, as amended: for a column specification that supplies at least one accessor
  (a bare accessor always does), the path of the normalized column is the supplied
  accessors, in order, hence not empty, and its header is the explicit header when one
  is supplied and the string form of the final accessor of the path otherwise.\<close>

theorem normalizeColumn_invariant:
  assumes "suppliedPath c \<noteq> []"
  shows "props (normalizeColumn c) = suppliedPath c
       \<and> props (normalizeColumn c) \<noteq> []
       \<and> header (normalizeColumn c) =
           (case suppliedHeader c of
              Some h \<Rightarrow> h
            | None \<Rightarrow> String_of (accessorValue (last (props (normalizeColumn c)))))"
proof (cases c)
  case (Details d)
  then show ?thesis using assms
    by (cases "ColumnDetails.props d") (auto simp: Let_def arrayAt_last arrayAt_single split: option.splits)
next
  case (Accessor a)
  then show ?thesis by simp
next
  case (Accessors ps)
  then show ?thesis using assms by (simp add: arrayAt_last)
qed

text \<open>The path \<open>["a", "b"]\<close> without an explicit header: the header is \<open>b\<close>.\<close>

theorem normalizeColumn_invariant_witness:
  "suppliedPath (Accessors [PStr (ascii ''a''), PStr (ascii ''b'')]) \<noteq> []
 \<and> props (normalizeColumn (Accessors [PStr (ascii ''a''), PStr (ascii ''b'')])) =
       [PStr (ascii ''a''), PStr (ascii ''b'')]
 \<and> header (normalizeColumn (Accessors [PStr (ascii ''a''), PStr (ascii ''b'')])) = ascii ''b''"
proof -
  let ?c = "Accessors [PStr (ascii ''a''), PStr (ascii ''b'')]"
  have h: "suppliedPath ?c \<noteq> []"
    by simp
  from normalizeColumn_invariant [OF h] have
    "props (normalizeColumn ?c) = suppliedPath ?c"
    "header (normalizeColumn ?c) =
       (case suppliedHeader ?c of Some h \<Rightarrow> h
        | None \<Rightarrow> String_of (accessorValue (last (props (normalizeColumn ?c)))))"
    by blast+
  then show ?thesis using h by simp
qed

text \<open>The claim as stated fails for the empty list of accessors, a column specification
  of type \<open>PropertyAccessor[]\<close>: the path of its normalized column is empty (and the
  header is the text \<open>undefined\<close>); so it is for \<open>{prop: []}\<close>.\<close>

theorem normalizeColumn_invariant_counterexample:
  "props (normalizeColumn (Accessors [])) = []
 \<and> header (normalizeColumn (Accessors [])) = ascii ''undefined''
 \<and> props (normalizeColumn (Details \<lparr>ColumnDetails.header = None, props = Path []\<rparr>)) = []"
  by code_simp

text \<open>C9: a string that contains neither the separator, nor a line feed, nor a double
  quote is returned unchanged by the escape function, so escaping it twice is escaping
  it once: \<open>escape(escape_free_text) = escape_free_text\<close>.\<close>

theorem escape_idempotent:
  assumes "\<not> includes_str s sep" "\<not> includes_str s LF" "\<not> includes_str s QUOTE"
  shows "getEscapedString (Str s) sep = s \<and>
         getEscapedString (Str (getEscapedString (Str s) sep)) sep = s"
  using assms by (simp add: getEscapedString_plain)

theorem escape_idempotent_witness:
  "\<not> includes_str (ascii ''Rick'') (ascii '','')
 \<and> \<not> includes_str (ascii ''Rick'') LF
 \<and> \<not> includes_str (ascii ''Rick'') QUOTE
 \<and> getEscapedString (Str (ascii ''Rick'')) (ascii '','') = ascii ''Rick''
 \<and> getEscapedString (Str (getEscapedString (Str (ascii ''Rick'')) (ascii '',''))) (ascii '','') =
     ascii ''Rick''"
proof -
  have a: "\<not> includes_str (ascii ''Rick'') (ascii '','')"
    and b: "\<not> includes_str (ascii ''Rick'') LF"
    and c: "\<not> includes_str (ascii ''Rick'') QUOTE"
    by code_simp+
  from a b c escape_idempotent [OF a b c] show ?thesis by blast
qed

text \<open>C10: a string with a carriage return but no line feed, no double quote and no
  separator is escaped to itself: the carriage return stays, no quote is added, and in
  the output the field stands as it is before the line's end.\<close>

theorem carriage_return_verbatim:
  assumes "0x0D \<in> set s" "\<not> includes_str s LF" "\<not> includes_str s QUOTE" "\<not> includes_str s sep"
  shows "getEscapedString (Str s) sep = s
       \<and> 0x0D \<in> set (getEscapedString (Str s) sep)
       \<and> 0x22 \<notin> set (getEscapedString (Str s) sep)
       \<and> (\<not> includes_str sep QUOTE \<and> \<not> includes_str sep CRLF \<longrightarrow>
            stringify [Arr [Str s]]
              (Some \<lparr>headers = None, separator = Some sep, columns = None, bom = None\<rparr>)
            = Inr (s @ CRLF))"
proof -
  have e: "getEscapedString (Str s) sep = s"
    using assms by (simp add: getEscapedString_plain)
  have q: "0x22 \<notin> set s"
    using assms(3) by (simp add: includes_str_QUOTE)
  have "stringify [Arr [Str s]]
          (Some \<lparr>headers = None, separator = Some sep, columns = None, bom = None\<rparr>)
        = Inr (s @ CRLF)"
    if "\<not> includes_str sep QUOTE" "\<not> includes_str sep CRLF"
    using that e
    by (simp add: stringify_def optSeparator_def optColumns_def optBom_def optHeaders_def
        optionsOrEmpty_def getValuesFromItem_def)
  then show ?thesis using e q assms(1) by simp
qed

theorem carriage_return_verbatim_witness:
  "0x0D \<in> set (ascii ''a'' @ [0x0D] @ ascii ''b'')
 \<and> \<not> includes_str (ascii ''a'' @ [0x0D] @ ascii ''b'') LF
 \<and> \<not> includes_str (ascii ''a'' @ [0x0D] @ ascii ''b'') QUOTE
 \<and> \<not> includes_str (ascii ''a'' @ [0x0D] @ ascii ''b'') (ascii '','')
 \<and> \<not> includes_str (ascii '','') QUOTE
 \<and> \<not> includes_str (ascii '','') CRLF
 \<and> getEscapedString (Str (ascii ''a'' @ [0x0D] @ ascii ''b'')) (ascii '','') =
     ascii ''a'' @ [0x0D] @ ascii ''b''
 \<and> stringify [Arr [Str (ascii ''a'' @ [0x0D] @ ascii ''b'')]]
       (Some \<lparr>headers = None, separator = Some (ascii '',''), columns = None, bom = None\<rparr>) =
     Inr ((ascii ''a'' @ [0x0D] @ ascii ''b'') @ CRLF)"
proof -
  let ?s = "ascii ''a'' @ [0x0D] @ ascii ''b''"
  have a: "0x0D \<in> set ?s"
    by simp
  have b: "\<not> includes_str ?s LF" and c: "\<not> includes_str ?s QUOTE"
    and d: "\<not> includes_str ?s (ascii '','')"
    and e: "\<not> includes_str (ascii '','') QUOTE" and f: "\<not> includes_str (ascii '','') CRLF"
    by code_simp+
  from a b c d e f carriage_return_verbatim [OF a b c d] show ?thesis by blast
qed

end
